theory Spec2Isabelle
  imports Complex_Main "HOL-Library.Char_ord" "HOL-Library.List_Lexorder" "HOL-Library.Log_Nat"
begin

section \<open>Redishort: asset inventory and publish scheduling\<close>

text \<open>
  A shallow embedding of the control plane of Redishort: the segment manager of
  \<^verbatim>\<open>video_assembler.py\<close>, the scheduler and the publishing phase of \<^verbatim>\<open>main.py\<close>,
  the segmenter and its quality check of \<^verbatim>\<open>video_segmenter.py\<close>, the persistence of the
  processed-video log in \<^verbatim>\<open>video_downloader.py\<close> and \<^verbatim>\<open>video_segmenter.py\<close>, and the
  request body of \<^verbatim>\<open>youtube_uploader.py\<close>.

  Exceptions are values of \<open>py_error\<close>; a function that may raise returns
  \<open>py_error + 'a\<close>. The file system, the clock, the random generator and the external
  tools (ffmpeg, OpenCV, the YouTube API) are not part of the program: what they answer
  is an argument of the model.
\<close>

datatype py_error = ValueError | IndexError | FileNotFoundError | OtherError string

subsection \<open>Floating-point division and multiplication\<close>

text \<open>
  Python's \<^verbatim>\<open>float\<close> is the IEEE double: a value is a rational number, and the result of
  a division or a multiplication is the exact result rounded to the nearest number with
  a significand of 53 bits, ties going to the even significand. \<open>binary_exponent x\<close> is
  the \<open>e\<close> with \<open>2 ^ e \<le> \<bar>x\<bar> < 2 ^ (e + 1)\<close>. Overflow and subnormal numbers are out of
  reach of the quantities computed here.
\<close>

definition round_half_even :: "rat \<Rightarrow> int" where
  "round_half_even y =
     (let f = \<lfloor>y\<rfloor>; r = y - of_int f
      in if r < 1 / 2 then f else if 1 / 2 < r then f + 1 else if even f then f else f + 1)"

definition binary_exponent :: "rat \<Rightarrow> int" where
  "binary_exponent x =
     (let k = bitlen (fst (quotient_of \<bar>x\<bar>)) - bitlen (snd (quotient_of \<bar>x\<bar>))
      in if 2 powi k \<le> \<bar>x\<bar> then k else k - 1)"

definition round_double :: "rat \<Rightarrow> rat" where
  "round_double x =
     (if x = 0 then 0
      else of_int (round_half_even (x / 2 powi (binary_exponent x - 52)))
             * 2 powi (binary_exponent x - 52))"

subsection \<open>Strings and paths\<close>

definition ends_with :: "string \<Rightarrow> string \<Rightarrow> bool" where
  "ends_with suf s = (length suf \<le> length s \<and> drop (length s - length suf) s = suf)"

text \<open>\<^verbatim>\<open>Path.glob("*.mp4")\<close>: the entries of the folder whose name ends in \<^verbatim>\<open>.mp4\<close>.\<close>

definition glob_mp4 :: "string \<Rightarrow> bool" where
  "glob_mp4 name = ends_with ''.mp4'' name"

subsection \<open>The segment manager (\<^verbatim>\<open>video_assembler.py\<close>)\<close>

text \<open>
  The state the segment manager works on: its dictionary \<^verbatim>\<open>_assigned\<close> (story id to
  segment path) and the segments folder, a list of entries with their byte sizes in the
  order the directory scan yields them. A path is the entry's name, the folder being
  fixed by the configuration. The lock is held over the whole body of both methods, so
  each call is one atomic step on this state.
\<close>

record segment_store =
  assigned :: "string \<rightharpoonup> string"
  segments_folder :: "(string \<times> nat) list"

text \<open>
  \<^verbatim>\<open>_select_valid_segment\<close>. \<^verbatim>\<open>random.choice(available)\<close> is modelled by an index \<open>r\<close>
  that the caller supplies, read modulo the length of the list: every element can be
  chosen, and nothing else can.
\<close>

definition available_segments :: "nat \<Rightarrow> (string \<times> nat) list \<Rightarrow> string list" where
  "available_segments min_size folder =
     map fst (filter (\<lambda>(p, sz). glob_mp4 p \<and> min_size \<le> sz) folder)"

definition select_valid_segment :: "nat \<Rightarrow> nat \<Rightarrow> (string \<times> nat) list \<Rightarrow> py_error + string" where
  "select_valid_segment min_size r folder =
     (let available = available_segments min_size folder
      in if available = [] then Inl ValueError
         else Inr (available ! (r mod length available)))"

text \<open>\<^verbatim>\<open>get_segment\<close>: the recorded assignment if there is one, else a fresh selection,
  recorded before the method returns.\<close>

definition get_segment ::
  "nat \<Rightarrow> nat \<Rightarrow> string \<Rightarrow> 'a segment_store_scheme
     \<Rightarrow> py_error + (string \<times> 'a segment_store_scheme)" where
  "get_segment min_size r story_id st =
     (case assigned st story_id of
        Some seg \<Rightarrow> Inr (seg, st)
      | None \<Rightarrow>
          (case select_valid_segment min_size r (segments_folder st) of
             Inl e \<Rightarrow> Inl e
           | Inr segment \<Rightarrow>
               Inr (segment, st\<lparr>assigned := (assigned st)(story_id \<mapsto> segment)\<rparr>)))"

text \<open>\<^verbatim>\<open>consume_segment\<close>: pops the assignment and unlinks the file if it exists.\<close>

definition unlink :: "string \<Rightarrow> (string \<times> nat) list \<Rightarrow> (string \<times> nat) list" where
  "unlink p folder = filter (\<lambda>(q, sz). q \<noteq> p) folder"

definition consume_segment :: "string \<Rightarrow> 'a segment_store_scheme \<Rightarrow> 'a segment_store_scheme" where
  "consume_segment story_id st =
     (case assigned st story_id of
        None \<Rightarrow> st
      | Some p \<Rightarrow>
          st\<lparr>assigned := (assigned st)(story_id := None),
             segments_folder :=
               (if p \<in> fst ` set (segments_folder st)
                then unlink p (segments_folder st) else segments_folder st)\<rparr>)"

subsection \<open>Parsing a slot (\<^verbatim>\<open>time_str.split(':')\<close>, \<^verbatim>\<open>int\<close>)\<close>

text \<open>
  \<^verbatim>\<open>str.split(sep)\<close> with a one-character separator: the pieces between the
  occurrences of the separator, empty pieces included; the empty string gives one empty
  piece.
\<close>

fun split_on :: "char \<Rightarrow> string \<Rightarrow> string list" where
  "split_on c [] = [[]]"
| "split_on c (x # xs) =
     (if x = c then [] # split_on c xs
      else (case split_on c xs of w # ws \<Rightarrow> (x # w) # ws | [] \<Rightarrow> [[x]]))"

text \<open>
  \<^verbatim>\<open>int(s)\<close> on a string in base ten: white space around the number is dropped, one sign
  may lead, and the digits may be grouped by single underscores. Characters are the code
  points below 256; among them \<^verbatim>\<open>int\<close> takes as white space the codes 9 to 13, 32, 133
  and 160. Anything else raises \<^verbatim>\<open>ValueError\<close> (\<open>None\<close> here). The limit on the number of
  digits of recent Python versions is not modelled.
\<close>

definition is_digit :: "char \<Rightarrow> bool" where
  "is_digit c = (48 \<le> (of_char c :: nat) \<and> (of_char c :: nat) \<le> 57)"

definition digit_value :: "char \<Rightarrow> int" where
  "digit_value c = int (of_char c) - 48"

definition int_space :: "char \<Rightarrow> bool" where
  "int_space c = ((of_char c :: nat) \<in> {9, 10, 11, 12, 13, 32, 133, 160})"

definition strip_int :: "string \<Rightarrow> string" where
  "strip_int s = rev (dropWhile int_space (rev (dropWhile int_space s)))"

fun more_digits :: "int \<Rightarrow> string \<Rightarrow> int option" where
  "more_digits acc [] = Some acc"
| "more_digits acc [c] = (if is_digit c then Some (acc * 10 + digit_value c) else None)"
| "more_digits acc (c # d # ds) =
     (if is_digit c then more_digits (acc * 10 + digit_value c) (d # ds)
      else if c = CHR ''_'' \<and> is_digit d then more_digits (acc * 10 + digit_value d) ds
      else None)"

definition py_digits :: "string \<Rightarrow> int option" where
  "py_digits s =
     (case s of [] \<Rightarrow> None
      | c # cs \<Rightarrow> if is_digit c then more_digits (digit_value c) cs else None)"

definition py_int :: "string \<Rightarrow> int option" where
  "py_int s =
     (case strip_int s of
        [] \<Rightarrow> None
      | c # cs \<Rightarrow>
          if c = CHR ''+'' then py_digits cs
          else if c = CHR ''-'' then map_option uminus (py_digits cs)
          else py_digits (c # cs))"

text \<open>\<^verbatim>\<open>hour, minute = map(int, time_str.split(':'))\<close>: exactly two pieces, both integers;
  every failure is a \<^verbatim>\<open>ValueError\<close>.\<close>

definition parse_hour_minute :: "string \<Rightarrow> py_error + (int \<times> int)" where
  "parse_hour_minute time_str =
     (case split_on CHR '':'' time_str of
        [a, b] \<Rightarrow>
          (case py_int a of
             None \<Rightarrow> Inl ValueError
           | Some h \<Rightarrow> (case py_int b of None \<Rightarrow> Inl ValueError | Some m \<Rightarrow> Inr (h, m)))
      | _ \<Rightarrow> Inl ValueError)"

subsection \<open>Datetimes\<close>

text \<open>
  A \<^verbatim>\<open>datetime\<close> in the configured time zone: the date as its day number
  (\<^verbatim>\<open>toordinal()\<close>) and the wall-clock fields. All datetimes of one computation carry the
  time zone object of the clock reading they come from (\<^verbatim>\<open>replace\<close> and the addition of a
  \<^verbatim>\<open>timedelta\<close> keep it), so Python compares and subtracts them field by field, which for
  fields in range is the comparison and the difference of \<open>timestamp_us\<close>. A change of the
  zone's offset between two clock readings, and the end of the calendar (year 9999), are
  outside the model.
\<close>

record datetime =
  ordinal :: int
  hour :: nat
  minute :: nat
  second :: nat
  microsecond :: nat

definition valid_datetime :: "datetime \<Rightarrow> bool" where
  "valid_datetime d =
     (hour d < 24 \<and> minute d < 60 \<and> second d < 60 \<and> microsecond d < 1000000)"

definition timestamp_us :: "datetime \<Rightarrow> int" where
  "timestamp_us d =
     (((ordinal d * 24 + int (hour d)) * 60 + int (minute d)) * 60 + int (second d)) * 1000000
       + int (microsecond d)"

text \<open>\<^verbatim>\<open>dt.replace(hour=h, minute=m, second=0, microsecond=0)\<close>: \<^verbatim>\<open>ValueError\<close> when a
  field is out of range.\<close>

definition replace_time :: "datetime \<Rightarrow> int \<Rightarrow> int \<Rightarrow> py_error + datetime" where
  "replace_time d h m =
     (if 0 \<le> h \<and> h \<le> 23 \<and> 0 \<le> m \<and> m \<le> 59
      then Inr (d\<lparr>hour := nat h, minute := nat m, second := 0, microsecond := 0\<rparr>)
      else Inl ValueError)"

definition add_days :: "datetime \<Rightarrow> int \<Rightarrow> datetime" where
  "add_days d n = d\<lparr>ordinal := ordinal d + n\<rparr>"

subsection \<open>The scheduler (\<^verbatim>\<open>get_next_publish_time\<close> in \<^verbatim>\<open>main.py\<close>)\<close>

text \<open>
  The clock reading \<^verbatim>\<open>datetime.now(tz)\<close> is the argument \<open>now\<close>. The \<^verbatim>\<open>for\<close> loop over
  \<^verbatim>\<open>sorted(schedule)\<close> is \<open>first_slot_after\<close>: \<open>Inr (Some d)\<close> when the loop returns \<open>d\<close>,
  \<open>Inr None\<close> when it runs to its end. \<^verbatim>\<open>sorted\<close> orders the strings by code points.
\<close>

fun first_slot_after :: "datetime \<Rightarrow> string list \<Rightarrow> py_error + datetime option" where
  "first_slot_after now_in_tz [] = Inr None"
| "first_slot_after now_in_tz (time_str # rest) =
     (case parse_hour_minute time_str of
        Inl e \<Rightarrow> Inl e
      | Inr (h, m) \<Rightarrow>
          (case replace_time now_in_tz h m of
             Inl e \<Rightarrow> Inl e
           | Inr next_publish_dt \<Rightarrow>
               if timestamp_us now_in_tz < timestamp_us next_publish_dt
               then Inr (Some next_publish_dt)
               else first_slot_after now_in_tz rest))"

definition get_next_publish_time :: "string list \<Rightarrow> datetime \<Rightarrow> py_error + datetime" where
  "get_next_publish_time schedule now_in_tz =
     (case first_slot_after now_in_tz (sort schedule) of
        Inl e \<Rightarrow> Inl e
      | Inr (Some d) \<Rightarrow> Inr d
      | Inr None \<Rightarrow>
          (case sort schedule of
             [] \<Rightarrow> Inl IndexError
           | first # _ \<Rightarrow>
               (case parse_hour_minute first of
                  Inl e \<Rightarrow> Inl e
                | Inr (first_hour, first_minute) \<Rightarrow>
                    replace_time (add_days now_in_tz 1) first_hour first_minute)))"

text \<open>
  Vocabulary for statements about slots: whether a configured string parses to a time
  of day, that time of day in minutes, and its occurrence on the day with number \<open>d\<close>.
  \<open>padded_slot\<close> is the form the configuration uses, \<^verbatim>\<open>HH:MM\<close> with two digits each.
\<close>

definition slot_in_range :: "string \<Rightarrow> bool" where
  "slot_in_range s =
     (case parse_hour_minute s of
        Inr (h, m) \<Rightarrow> 0 \<le> h \<and> h \<le> 23 \<and> 0 \<le> m \<and> m \<le> 59
      | Inl e \<Rightarrow> False)"

definition slot_minutes :: "string \<Rightarrow> int" where
  "slot_minutes s = (case parse_hour_minute s of Inr (h, m) \<Rightarrow> h * 60 + m | Inl e \<Rightarrow> 0)"

definition slot_on :: "int \<Rightarrow> string \<Rightarrow> datetime" where
  "slot_on d s =
     (case parse_hour_minute s of
        Inr (h, m) \<Rightarrow> \<lparr>ordinal = d, hour = nat h, minute = nat m, second = 0, microsecond = 0\<rparr>
      | Inl e \<Rightarrow> \<lparr>ordinal = d, hour = 0, minute = 0, second = 0, microsecond = 0\<rparr>)"

definition padded_slot :: "string \<Rightarrow> bool" where
  "padded_slot s =
     (case s of
        [a, b, c, d, e] \<Rightarrow>
          is_digit a \<and> is_digit b \<and> c = CHR '':'' \<and> is_digit d \<and> is_digit e \<and>
          digit_value a * 10 + digit_value b \<le> 23 \<and> digit_value d * 10 + digit_value e \<le> 59
      | _ \<Rightarrow> False)"

subsection \<open>The publish decision (\<^verbatim>\<open>main_loop\<close>, publishing phase)\<close>

text \<open>
  \<^verbatim>\<open>time_passed.total_seconds() / 60\<close>: the difference is an exact number of microseconds;
  \<^verbatim>\<open>total_seconds\<close> divides it by a million and the loop divides the result by sixty,
  both in floating point. The comparison with the integer tolerance is exact.
\<close>

definition total_seconds :: "int \<Rightarrow> rat" where
  "total_seconds microseconds = round_double (of_int microseconds / 1000000)"

definition minutes_passed :: "datetime \<Rightarrow> datetime \<Rightarrow> rat" where
  "minutes_passed target_publish_time current_time =
     round_double
       (total_seconds (timestamp_us current_time - timestamp_us target_publish_time) / 60)"

text \<open>
  The value of \<^verbatim>\<open>publish_time_for_api\<close> after lines 188 to 199: \<open>None\<close> is Python's
  \<^verbatim>\<open>None\<close> (publish now). The clock is read once for \<open>current_time\<close> and, on the
  rescheduling branch, once more inside \<^verbatim>\<open>get_next_publish_time\<close>; the second reading is
  \<open>now_again\<close>.
\<close>

definition publish_time_for_api ::
  "string list \<Rightarrow> int \<Rightarrow> datetime \<Rightarrow> datetime \<Rightarrow> datetime \<Rightarrow> py_error + datetime option" where
  "publish_time_for_api schedule tolerance target_publish_time current_time now_again =
     (if timestamp_us target_publish_time \<le> timestamp_us current_time then
        (if minutes_passed target_publish_time current_time \<le> of_int tolerance then Inr None
         else (case get_next_publish_time schedule now_again of
                 Inl e \<Rightarrow> Inl e
               | Inr new_target_time \<Rightarrow> Inr (Some new_target_time)))
      else Inr (Some target_publish_time))"

subsection \<open>The upload request (\<^verbatim>\<open>youtube_uploader.py\<close>)\<close>

record request_body =
  title :: string
  description :: string
  tags :: "string list"
  categoryId :: string
  privacyStatus :: string
  selfDeclaredMadeForKids :: bool
  publishAt :: "string option"

text \<open>
  The body that \<^verbatim>\<open>upload_to_youtube\<close> builds. \<^verbatim>\<open>publish_at\<close> is \<^verbatim>\<open>None\<close> or a datetime, and
  a datetime is always true in a condition. \<^verbatim>\<open>isoformat\<close> is the library's rendering of a
  datetime, a parameter here.
\<close>

definition upload_body ::
  "(datetime \<Rightarrow> string) \<Rightarrow> string \<Rightarrow> string \<Rightarrow> string \<Rightarrow> string list \<Rightarrow> datetime option
     \<Rightarrow> request_body" where
  "upload_body isoformat category ttl desc tgs publish_at =
     \<lparr>title = ttl, description = desc, tags = tgs, categoryId = category,
      privacyStatus = (if publish_at \<noteq> None then ''private'' else ''public''),
      selfDeclaredMadeForKids = False,
      publishAt = (case publish_at of None \<Rightarrow> None | Some t \<Rightarrow> Some (isoformat t))\<rparr>"

text \<open>
  \<^verbatim>\<open>upload_to_youtube\<close>: \<^verbatim>\<open>None\<close> without credentials; otherwise the body is sent and the
  answer of the API is returned. \<open>api\<close> is the YouTube service: the video id of the
  response, \<open>None\<close> when the request raises or the response carries no id.
\<close>

definition upload_to_youtube ::
  "bool \<Rightarrow> (request_body \<Rightarrow> string option) \<Rightarrow> (datetime \<Rightarrow> string) \<Rightarrow> string \<Rightarrow>
     string \<Rightarrow> string \<Rightarrow> string list \<Rightarrow> datetime option \<Rightarrow> string option" where
  "upload_to_youtube authenticated api isoformat category ttl desc tgs publish_at =
     (if \<not> authenticated then None
      else api (upload_body isoformat category ttl desc tgs publish_at))"

subsection \<open>Publishing and cleanup (\<^verbatim>\<open>main_loop\<close>, lines 186 to 215)\<close>

text \<open>
  The part of the world this phase touches: the segment store and the story folders of
  the session. \<^verbatim>\<open>if video_id:\<close> holds for a non-empty string. \<^verbatim>\<open>shutil.rmtree\<close> of a
  folder that is missing raises, after the segment has been consumed. The result pairs
  the exception that leaves the phase, if any, with the world it leaves behind.
\<close>

record world = segment_store +
  story_folders :: "string list"

definition truthy :: "string option \<Rightarrow> bool" where
  "truthy video_id = (case video_id of None \<Rightarrow> False | Some v \<Rightarrow> v \<noteq> [])"

definition story_folder_of :: "string \<Rightarrow> string" where
  "story_folder_of story_id = ''story_'' @ story_id"

definition rmtree :: "string \<Rightarrow> world \<Rightarrow> py_error option \<times> world" where
  "rmtree folder w =
     (if folder \<in> set (story_folders w)
      then (None, w\<lparr>story_folders := removeAll folder (story_folders w)\<rparr>)
      else (Some FileNotFoundError, w))"

definition publishing_phase ::
  "string list \<Rightarrow> int \<Rightarrow> bool \<Rightarrow> (request_body \<Rightarrow> string option) \<Rightarrow> (datetime \<Rightarrow> string) \<Rightarrow>
     string \<Rightarrow> string \<Rightarrow> string \<Rightarrow> string \<Rightarrow> datetime \<Rightarrow> datetime \<Rightarrow> datetime \<Rightarrow> bool \<Rightarrow>
     string \<Rightarrow> world \<Rightarrow> py_error option \<times> world" where
  "publishing_phase schedule tolerance authenticated api isoformat category yt_title yt_desc
       subreddit target_publish_time current_time now_again output_ok story_id w =
     (if output_ok then
        (case publish_time_for_api schedule tolerance target_publish_time current_time now_again of
           Inl e \<Rightarrow> (Some e, w)
         | Inr publish_at \<Rightarrow>
             (let yt_tags = [''reddit'', ''stories'', ''askreddit'', ''storytime'', subreddit];
                  video_id = upload_to_youtube authenticated api isoformat category
                               yt_title yt_desc yt_tags publish_at
              in if truthy video_id
                 then rmtree (story_folder_of story_id) (consume_segment story_id w)
                 else (None, w)))
      else (None, w))"

subsection \<open>The quality check (\<^verbatim>\<open>is_segment_high_quality\<close> in \<^verbatim>\<open>video_segmenter.py\<close>)\<close>

text \<open>
  What OpenCV answers for a segment file is the \<open>clip\<close>: whether the capture opened, the
  frame count, and for each frame index what \<^verbatim>\<open>cap.set\<close>, \<^verbatim>\<open>cap.read\<close> and \<^verbatim>\<open>cvtColor\<close>
  give: an exception with its text, no frame (\<^verbatim>\<open>ret\<close> false), or the grey image as the
  list of its pixel values. Brightness and motion are floating-point numbers in the
  source and exact rationals here.
\<close>

datatype frame_read = Raises string | No_frame | Gray "nat list"

record clip =
  opened :: bool
  frame_count :: int
  read_frame :: "int \<Rightarrow> frame_read"

record quality_config =
  enable_quality_validation :: bool
  validation_frame_samples :: int
  min_brightness :: rat
  max_brightness :: rat
  min_motion_score :: rat

datatype reason =
    Validation_disabled
  | Cannot_open_video
  | Too_short
  | Brightness_out_of_range "rat option"
  | Insufficient_motion rat
  | Quality_OK
  | Error_text string

text \<open>
  \<^verbatim>\<open>np.linspace(0, frame_count - 1, n, dtype=int)\<close>, which the check calls with
  \<open>n \<le> frame_count\<close>: a negative \<open>n\<close> raises; for \<open>n\<close> of two or more the step is the
  floating-point quotient of \<open>frame_count - 1\<close> by \<open>n - 1\<close>, the sample \<open>i\<close> is the
  floating-point product of \<open>i\<close> and the step, rounded down, and the last sample is set to
  \<open>frame_count - 1\<close> itself.
\<close>

definition frame_indices :: "int \<Rightarrow> int \<Rightarrow> py_error + int list" where
  "frame_indices count n =
     (if n < 0 then Inl ValueError
      else if n = 0 then Inr []
      else if n = 1 then Inr [0]
      else (let step = round_double (of_int (count - 1) / of_int (n - 1))
            in Inr (map (\<lambda>i. \<lfloor>round_double (of_int i * step)\<rfloor>) [0..n - 2] @ [count - 1])))"

text \<open>\<^verbatim>\<open>np.mean\<close>: \<open>None\<close> is the \<^verbatim>\<open>nan\<close> that the mean of an empty list gives.\<close>

definition np_mean :: "rat list \<Rightarrow> rat option" where
  "np_mean xs = (if xs = [] then None else Some (sum_list xs / of_nat (length xs)))"

definition gray_mean :: "nat list \<Rightarrow> rat" where
  "gray_mean px = of_nat (sum_list px) / of_nat (length px)"

text \<open>\<^verbatim>\<open>absdiff\<close>, \<^verbatim>\<open>threshold(diff, 25, 255, THRESH_BINARY)\<close> and the share of non-zero
  pixels, in percent.\<close>

definition motion_percent :: "nat list \<Rightarrow> nat list \<Rightarrow> rat" where
  "motion_percent prev px =
     of_nat (length (filter (\<lambda>(a, b). 25 < (if a \<le> b then b - a else a - b)) (zip prev px)) * 100)
       / of_nat (length px)"

record sampling =
  brightness_values :: "rat list"
  motion_scores :: "rat list"
  prev_gray :: "nat list option"

text \<open>
  The sampling loop over what the reads gave, in the order of the indices. \<open>Inl\<close> is the
  text of the exception that ends the loop. An empty image makes \<^verbatim>\<open>cvtColor\<close> raise, and
  two images of different sizes make \<^verbatim>\<open>absdiff\<close> raise; the wording of these two
  errors, and of the one that \<^verbatim>\<open>linspace\<close> raises for a negative number of samples, is
  abbreviated.
\<close>

fun sample_frames :: "frame_read list \<Rightarrow> sampling \<Rightarrow> string + sampling" where
  "sample_frames [] st = Inr st"
| "sample_frames (Raises msg # rest) st = Inl msg"
| "sample_frames (No_frame # rest) st = sample_frames rest st"
| "sample_frames (Gray px # rest) st =
     (if px = [] then Inl ''cv2.error: empty image''
      else (case prev_gray st of
              None \<Rightarrow>
                sample_frames rest
                  (st\<lparr>brightness_values := brightness_values st @ [gray_mean px],
                      prev_gray := Some px\<rparr>)
            | Some prev \<Rightarrow>
                if length prev \<noteq> length px then Inl ''cv2.error: sizes differ''
                else sample_frames rest
                  (st\<lparr>brightness_values := brightness_values st @ [gray_mean px],
                      motion_scores := motion_scores st @ [motion_percent prev px],
                      prev_gray := Some px\<rparr>)))"

definition quality_verdict :: "quality_config \<Rightarrow> sampling \<Rightarrow> bool \<times> reason" where
  "quality_verdict cfg st =
     (case np_mean (brightness_values st) of
        None \<Rightarrow> (False, Brightness_out_of_range None)
      | Some avg_brightness \<Rightarrow>
          if \<not> (min_brightness cfg \<le> avg_brightness \<and> avg_brightness \<le> max_brightness cfg)
          then (False, Brightness_out_of_range (Some avg_brightness))
          else (case np_mean (motion_scores st) of
                  None \<Rightarrow> (True, Quality_OK)
                | Some motion \<Rightarrow>
                    if motion < min_motion_score cfg then (False, Insufficient_motion motion)
                    else (True, Quality_OK)))"

definition is_segment_high_quality :: "quality_config \<Rightarrow> clip \<Rightarrow> bool \<times> reason" where
  "is_segment_high_quality cfg c =
     (if \<not> enable_quality_validation cfg then (True, Validation_disabled)
      else if \<not> opened c then (False, Cannot_open_video)
      else if frame_count c < validation_frame_samples cfg then (False, Too_short)
      else (case frame_indices (frame_count c) (validation_frame_samples cfg) of
              Inl e \<Rightarrow> (False, Error_text ''Number of samples must be non-negative'')
            | Inr idxs \<Rightarrow>
                (case sample_frames (map (read_frame c) idxs)
                        \<lparr>brightness_values = [], motion_scores = [], prev_gray = None\<rparr> of
                   Inl msg \<Rightarrow> (False, Error_text msg)
                 | Inr st \<Rightarrow> quality_verdict cfg st)))"

subsection \<open>The processed-video log\<close>

text \<open>
  The log file is its text, \<open>None\<close> while the file does not exist. \<^verbatim>\<open>str.splitlines\<close>
  breaks a text at line boundaries (among the code points below 256: 10, 11, 12, 13, 28,
  29, 30 and 133, with 13 followed by 10 counting once) and yields no empty last line.
  A Python \<^verbatim>\<open>set\<close> of ids is a list without duplicates here; the order in which Python
  iterates a set is not fixed by the program, the model takes the order of first
  occurrence.
\<close>

definition line_break :: "char \<Rightarrow> bool" where
  "line_break c = ((of_char c :: nat) \<in> {10, 11, 12, 13, 28, 29, 30, 133})"

fun split_lines :: "string \<Rightarrow> string \<Rightarrow> string list" where
  "split_lines cur [] = (if cur = [] then [] else [cur])"
| "split_lines cur [c] = (if line_break c then [cur] else [cur @ [c]])"
| "split_lines cur (c # d # ds) =
     (if c = CHR 0x0D \<and> d = CHR 0x0A then cur # split_lines [] ds
      else if line_break c then cur # split_lines [] (d # ds)
      else split_lines (cur @ [c]) (d # ds))"

definition splitlines :: "string \<Rightarrow> string list" where
  "splitlines text = split_lines [] text"

fun join_newline :: "string list \<Rightarrow> string" where
  "join_newline [] = []"
| "join_newline [x] = x"
| "join_newline (x # y # ys) = x @ [CHR 0x0A] @ join_newline (y # ys)"

text \<open>\<^verbatim>\<open>set(Path(PROCESSED_VIDEOS_LOG).read_text().splitlines())\<close>, empty without a file.\<close>

definition load_processed_ids :: "string option \<Rightarrow> string list" where
  "load_processed_ids log_file =
     (case log_file of None \<Rightarrow> [] | Some text \<Rightarrow> remdups (splitlines text))"

text \<open>\<^verbatim>\<open>open(PROCESSED_VIDEOS_LOG, "a")\<close> and \<^verbatim>\<open>f.write(f"{stem}\n")\<close>.\<close>

definition append_line :: "string \<Rightarrow> string option \<Rightarrow> string option" where
  "append_line stem log_file =
     Some ((case log_file of None \<Rightarrow> [] | Some text \<Rightarrow> text) @ stem @ [CHR 0x0A])"

subsection \<open>The library: raw videos, segments, log\<close>

record library =
  raw_folder :: "string list"
  segments_dir :: "string list"
  processed_log :: "string option"

text \<open>
  \<^verbatim>\<open>download_new_source_videos\<close>, as far as the library goes: \<open>downloaded\<close> are the ids of
  the videos that the session downloaded with success, in order (which videos these are
  is for YouTube and the random generator to say). Each is written to the raw folder as
  \<^verbatim>\<open>id.mp4\<close> and added to the ids read from the log at the start; at the end the log is
  written anew, in mode \<^verbatim>\<open>"w"\<close>, as the ids joined by newlines, unless there is no id.
\<close>

definition add_file :: "string \<Rightarrow> string list \<Rightarrow> string list" where
  "add_file name folder = (if name \<in> set folder then folder else folder @ [name])"

definition download_new_source_videos :: "string list \<Rightarrow> library \<Rightarrow> library" where
  "download_new_source_videos downloaded lib =
     (let processed_ids = remdups (load_processed_ids (processed_log lib) @ downloaded)
      in lib\<lparr>raw_folder := fold (\<lambda>video_id. add_file (video_id @ ''.mp4'')) downloaded (raw_folder lib),
             processed_log :=
               (if processed_ids = [] then processed_log lib
                else Some (join_newline processed_ids))\<rparr>)"

subsection \<open>The segmenter (\<^verbatim>\<open>process_new_videos_into_segments\<close>)\<close>

record segmenter_config =
  enable_video_trimming :: bool
  trim_start_seconds :: rat
  trim_end_seconds :: rat
  segment_duration_seconds :: rat

text \<open>
  What ffmpeg and OpenCV answer for one raw video: the duration that
  \<^verbatim>\<open>get_video_duration\<close> reads for the raw file and for the trimmed file, whether the
  trimming wrote its file, and for the segment number \<open>i\<close> (from 0) whether the extraction
  wrote the file and what the capture of that path shows. Durations are floating-point
  numbers in the source and exact rationals here.
\<close>

record video_tools =
  probe_duration :: rat
  trimmed_written :: bool
  probe_trimmed :: rat
  segment_written :: "nat \<Rightarrow> bool"
  segment_clip :: "nat \<Rightarrow> clip"

text \<open>\<^verbatim>\<open>Path.suffix == '.mp4'\<close> and \<^verbatim>\<open>Path.stem\<close> of a file name with that suffix.\<close>

definition has_mp4_suffix :: "string \<Rightarrow> bool" where
  "has_mp4_suffix name = (ends_with ''.mp4'' name \<and> 4 < length name)"

definition stem :: "string \<Rightarrow> string" where
  "stem name = take (length name - 4) name"

fun digits_of :: "nat \<Rightarrow> nat \<Rightarrow> string" where
  "digits_of 0 n = []"
| "digits_of (Suc fuel) n =
     (if n < 10 then [char_of (48 + n)]
      else digits_of fuel (n div 10) @ [char_of (48 + n mod 10)])"

definition str_of_nat :: "nat \<Rightarrow> string" where
  "str_of_nat n = digits_of (Suc n) n"

definition segment_name :: "string \<Rightarrow> nat \<Rightarrow> string" where
  "segment_name video_stem i = video_stem @ ''_seg'' @ str_of_nat (i + 1) @ ''.mp4''"

text \<open>
  The loop over \<^verbatim>\<open>range(num_segments)\<close>, from segment \<open>i\<close> on, with \<open>k\<close> segments to go. A
  segment the check rejects is unlinked, and \<^verbatim>\<open>unlink\<close> raises when the extraction left
  no file at the path; the exception ends the work on this video.
\<close>

fun extract_segments ::
  "quality_config \<Rightarrow> video_tools \<Rightarrow> string \<Rightarrow> nat \<Rightarrow> nat \<Rightarrow> string list
     \<Rightarrow> py_error option \<times> string list" where
  "extract_segments qcfg tools video_stem i 0 segs = (None, segs)"
| "extract_segments qcfg tools video_stem i (Suc k) segs =
     (let segment_path = segment_name video_stem i;
          present = (segment_written tools i \<or> segment_path \<in> set segs);
          segs1 = (if segment_written tools i then add_file segment_path segs else segs);
          is_valid = fst (is_segment_high_quality qcfg
                            ((segment_clip tools i)\<lparr>opened := opened (segment_clip tools i) \<and> present\<rparr>))
      in if is_valid then extract_segments qcfg tools video_stem (Suc i) k segs1
         else if present then extract_segments qcfg tools video_stem (Suc i) k (removeAll segment_path segs1)
         else (Some FileNotFoundError, segs1))"

text \<open>
  The body of the loop over the videos to process, for one video: the exception that the
  \<^verbatim>\<open>try\<close> catches and logs, if any, and the library as the iteration leaves it. The
  \<^verbatim>\<open>continue\<close> of a video that is too short after trimming leaves the library as it is.
  The trimmed file is \<^verbatim>\<open>stem_trimmed.mp4\<close> in the raw folder, never the video itself.
\<close>

definition process_video ::
  "segmenter_config \<Rightarrow> quality_config \<Rightarrow> video_tools \<Rightarrow> string \<Rightarrow> library
     \<Rightarrow> py_error option \<times> library" where
  "process_video cfg qcfg tools video_name lib =
     (let trimmed_duration =
            probe_duration tools - trim_start_seconds cfg - trim_end_seconds cfg;
          trimmed_path = stem video_name @ ''_trimmed.mp4''
      in if enable_video_trimming cfg \<and> trimmed_duration < segment_duration_seconds cfg
         then (None, lib)
         else
           (let trimming = (enable_video_trimming cfg \<and> trimmed_written tools);
                trimmed_exists = (enable_video_trimming cfg \<and>
                   (trimmed_written tools \<or> trimmed_path \<in> set (raw_folder lib)));
                raw1 = (if trimming then add_file trimmed_path (raw_folder lib)
                        else raw_folder lib);
                video_duration = (if trimmed_exists then probe_trimmed tools
                                  else probe_duration tools)
            in if segment_duration_seconds cfg = 0
               then (Some (OtherError ''division by zero''), lib\<lparr>raw_folder := raw1\<rparr>)
               else
                 (let num_segments = \<lfloor>video_duration / segment_duration_seconds cfg\<rfloor>;
                      (err, segs) = extract_segments qcfg tools (stem video_name) 0
                                      (nat num_segments) (segments_dir lib);
                      raw2 = (if trimmed_exists then removeAll trimmed_path raw1 else raw1)
                  in case err of
                       Some e \<Rightarrow> (Some e, lib\<lparr>raw_folder := raw1, segments_dir := segs\<rparr>)
                     | None \<Rightarrow>
                         if video_name \<in> set raw2
                         then (None,
                               lib\<lparr>raw_folder := removeAll video_name raw2,
                                   segments_dir := segs,
                                   processed_log :=
                                     append_line (stem video_name) (processed_log lib)\<rparr>)
                         else (Some FileNotFoundError,
                               lib\<lparr>raw_folder := raw2, segments_dir := segs\<rparr>))))"

text \<open>
  \<^verbatim>\<open>process_new_videos_into_segments\<close>: the videos to process are chosen once, from the
  folder and the log as they are at the start; an exception in one video is logged and
  the loop goes on.
\<close>

fun process_videos ::
  "segmenter_config \<Rightarrow> quality_config \<Rightarrow> (string \<Rightarrow> video_tools) \<Rightarrow> string list \<Rightarrow> library
     \<Rightarrow> library" where
  "process_videos cfg qcfg tools [] lib = lib"
| "process_videos cfg qcfg tools (video_name # rest) lib =
     process_videos cfg qcfg tools rest
       (snd (process_video cfg qcfg (tools video_name) video_name lib))"

definition process_new_videos_into_segments ::
  "segmenter_config \<Rightarrow> quality_config \<Rightarrow> (string \<Rightarrow> video_tools) \<Rightarrow> library \<Rightarrow> library" where
  "process_new_videos_into_segments cfg qcfg tools lib =
     (let processed_ids = load_processed_ids (processed_log lib);
          videos_to_process =
            filter (\<lambda>f. stem f \<notin> set processed_ids \<and> has_mp4_suffix f) (raw_folder lib)
      in process_videos cfg qcfg tools videos_to_process lib)"

section \<open>Properties\<close>

subsection \<open>Rounding to a double\<close>



















text \<open>
  C9. \<^verbatim>\<open>get_segment\<close> is idempotent per story id: for a story id that already has an
  assignment, the call returns the recorded segment and leaves the store as it is,
  whatever the random generator would have chosen; so a second call after a successful
  first one returns the first call's segment.
\<close>

theorem get_segment_idempotent:
  "(assigned st story_id = Some seg \<longrightarrow> get_segment min_size r story_id st = Inr (seg, st)) \<and>
   (get_segment min_size r story_id st = Inr (seg, st') \<longrightarrow>
      get_segment min_size r' story_id st' = Inr (seg, st'))"
  by (auto simp: get_segment_def split: option.splits sum.splits)

theorem get_segment_idempotent_witness:
  "get_segment 102400 0 ''s1'' \<lparr>assigned = Map.empty, segments_folder = [(''a.mp4'', 200000), (''b.mp4'', 300000)]\<rparr>
     = Inr (''a.mp4'', \<lparr>assigned = [''s1'' \<mapsto> ''a.mp4''], segments_folder = [(''a.mp4'', 200000), (''b.mp4'', 300000)]\<rparr>)
   \<and> get_segment 102400 1 ''s1'' \<lparr>assigned = [''s1'' \<mapsto> ''a.mp4''], segments_folder = [(''a.mp4'', 200000), (''b.mp4'', 300000)]\<rparr>
     = Inr (''a.mp4'', \<lparr>assigned = [''s1'' \<mapsto> ''a.mp4''], segments_folder = [(''a.mp4'', 200000), (''b.mp4'', 300000)]\<rparr>)"
proof -
  let ?f = "[(''a.mp4'', 200000::nat), (''b.mp4'', 300000)]"
  have first: "get_segment 102400 0 ''s1'' \<lparr>assigned = Map.empty, segments_folder = ?f\<rparr>
     = Inr (''a.mp4'', \<lparr>assigned = [''s1'' \<mapsto> ''a.mp4''], segments_folder = ?f\<rparr>)"
    by (simp add: get_segment_def select_valid_segment_def available_segments_def
        glob_mp4_def ends_with_def)
  from get_segment_idempotent [of "\<lparr>assigned = Map.empty, segments_folder = ?f\<rparr>" "''s1''" "''a.mp4''"
      102400 0 "\<lparr>assigned = [''s1'' \<mapsto> ''a.mp4''], segments_folder = ?f\<rparr>" 1] first
  show ?thesis by simp
qed


subsection \<open>Selection and the size floor\<close>




text \<open>
  C1. The claim: two distinct story ids never receive the same segment while at least two
  unassigned, size-valid segments exist, because the selection is made among the segments
  not assigned to any story. The class's docstring says the same ("Ensures a segment is
  assigned to a single story"). The code selects among all size-valid files of the folder
  and never looks at \<^verbatim>\<open>_assigned\<close>: with three valid segments in the folder and the
  random generator choosing the first one twice, stories \<open>s1\<close> and \<open>s2\<close> both receive
  \<open>a.mp4\<close>, although \<open>b.mp4\<close> and \<open>c.mp4\<close> are valid and unassigned.
\<close>

theorem get_segment_assigns_same_segment_twice:
  "available_segments 102400 [(''a.mp4'', 200000), (''b.mp4'', 300000), (''c.mp4'', 300000)]
     = [''a.mp4'', ''b.mp4'', ''c.mp4'']
   \<and> get_segment 102400 0 ''s1''
      \<lparr>assigned = Map.empty,
       segments_folder = [(''a.mp4'', 200000), (''b.mp4'', 300000), (''c.mp4'', 300000)]\<rparr>
    = Inr (''a.mp4'',
      \<lparr>assigned = [''s1'' \<mapsto> ''a.mp4''],
       segments_folder = [(''a.mp4'', 200000), (''b.mp4'', 300000), (''c.mp4'', 300000)]\<rparr>)
   \<and> get_segment 102400 0 ''s2''
      \<lparr>assigned = [''s1'' \<mapsto> ''a.mp4''],
       segments_folder = [(''a.mp4'', 200000), (''b.mp4'', 300000), (''c.mp4'', 300000)]\<rparr>
    = Inr (''a.mp4'',
      \<lparr>assigned = [''s1'' \<mapsto> ''a.mp4'', ''s2'' \<mapsto> ''a.mp4''],
       segments_folder = [(''a.mp4'', 200000), (''b.mp4'', 300000), (''c.mp4'', 300000)]\<rparr>)"
  by (simp add: get_segment_def select_valid_segment_def available_segments_def
      glob_mp4_def ends_with_def)







subsection \<open>Slots in the configured form\<close>

lemma is_digit_plain:
  "is_digit c \<Longrightarrow> c \<noteq> CHR '':'' \<and> c \<noteq> CHR ''+'' \<and> c \<noteq> CHR ''-'' \<and> \<not> int_space c
     \<and> 0 \<le> digit_value c \<and> digit_value c \<le> 9"
  by (auto simp: is_digit_def int_space_def digit_value_def)

lemma is_digit_chars:
  assumes "is_digit c"
  shows "c \<noteq> CHR '':''" "c \<noteq> CHR ''+''" "c \<noteq> CHR ''-''" "\<not> int_space c"
  using assms by (auto simp: is_digit_def int_space_def)

lemma py_int_two_digits:
  "is_digit a \<Longrightarrow> is_digit b \<Longrightarrow> py_int [a, b] = Some (digit_value a * 10 + digit_value b)"
  by (simp add: py_int_def strip_int_def py_digits_def is_digit_chars)

lemma split_two_fields:
  "is_digit a \<Longrightarrow> is_digit b \<Longrightarrow> is_digit d \<Longrightarrow> is_digit e \<Longrightarrow>
     split_on CHR '':'' [a, b, CHR '':'', d, e] = [[a, b], [d, e]]"
  by (auto simp: is_digit_def)

lemma padded_slot_cases:
  "padded_slot s \<Longrightarrow>
     \<exists>a b d e. s = [a, b, CHR '':'', d, e] \<and> is_digit a \<and> is_digit b \<and> is_digit d \<and> is_digit e
       \<and> digit_value a * 10 + digit_value b \<le> 23 \<and> digit_value d * 10 + digit_value e \<le> 59"
  by (auto simp: padded_slot_def split: list.splits)

lemma parse_padded:
  assumes "is_digit a" "is_digit b" "is_digit d" "is_digit e"
  shows "parse_hour_minute [a, b, CHR '':'', d, e]
           = Inr (digit_value a * 10 + digit_value b, digit_value d * 10 + digit_value e)"
  using assms
  by (simp add: parse_hour_minute_def split_two_fields py_int_two_digits del: split_on.simps)

lemma padded_slot_in_range: "padded_slot s \<Longrightarrow> slot_in_range s"
proof -
  assume "padded_slot s"
  then obtain a b d e where s: "s = [a, b, CHR '':'', d, e]"
    and dg: "is_digit a" "is_digit b" "is_digit d" "is_digit e"
    and rg: "digit_value a * 10 + digit_value b \<le> 23" "digit_value d * 10 + digit_value e \<le> 59"
    using padded_slot_cases by blast
  from dg is_digit_plain [of a] is_digit_plain [of b] is_digit_plain [of d] is_digit_plain [of e] rg
  show ?thesis unfolding s slot_in_range_def by (simp add: parse_padded)
qed

lemma digit_less: "is_digit a \<Longrightarrow> is_digit b \<Longrightarrow> a < b \<longleftrightarrow> digit_value a < digit_value b"
  by (auto simp: is_digit_def digit_value_def less_char_def)

lemma padded_slot_order:
  assumes "padded_slot s" "padded_slot t" "s \<le> t"
  shows "slot_minutes s \<le> slot_minutes t"
proof -
  from assms(1) obtain a b d e where s: "s = [a, b, CHR '':'', d, e]"
    and dg: "is_digit a" "is_digit b" "is_digit d" "is_digit e"
    and rg: "digit_value a * 10 + digit_value b \<le> 23" "digit_value d * 10 + digit_value e \<le> 59"
    using padded_slot_cases by blast
  from assms(2) obtain a' b' d' e' where t: "t = [a', b', CHR '':'', d', e']"
    and dg': "is_digit a'" "is_digit b'" "is_digit d'" "is_digit e'"
    and rg': "digit_value a' * 10 + digit_value b' \<le> 23" "digit_value d' * 10 + digit_value e' \<le> 59"
    using padded_slot_cases by blast
  note bounds = is_digit_plain [OF dg(1)] is_digit_plain [OF dg(2)] is_digit_plain [OF dg(3)]
    is_digit_plain [OF dg(4)] is_digit_plain [OF dg'(1)] is_digit_plain [OF dg'(2)]
    is_digit_plain [OF dg'(3)] is_digit_plain [OF dg'(4)]
  from assms(3) have "a < a' \<or> a = a' \<and> (b < b' \<or> b = b' \<and> (d < d' \<or> d = d' \<and> (e < e' \<or> e = e')))"
    unfolding s t by (auto simp: list_le_def)
  then have "digit_value a < digit_value a' \<or> digit_value a = digit_value a' \<and>
      (digit_value b < digit_value b' \<or> digit_value b = digit_value b' \<and>
        (digit_value d < digit_value d' \<or> digit_value d = digit_value d' \<and>
          (digit_value e \<le> digit_value e')))"
    using dg dg' by (auto simp: digit_less)
  then show ?thesis
    unfolding s t slot_minutes_def using bounds rg rg'
    by (simp add: parse_padded dg dg') linarith
qed


lemma timestamp_slot_on:
  "slot_in_range s \<Longrightarrow> timestamp_us (slot_on d s) = (d * 1440 + slot_minutes s) * 60000000"
  by (auto simp: slot_in_range_def slot_on_def slot_minutes_def timestamp_us_def
      split: sum.splits)

lemma slot_minutes_range: "slot_in_range s \<Longrightarrow> 0 \<le> slot_minutes s \<and> slot_minutes s \<le> 1439"
  by (auto simp: slot_in_range_def slot_minutes_def split: sum.splits)

lemma timestamp_day_bounds:
  "valid_datetime now \<Longrightarrow>
     ordinal now * 86400000000 \<le> timestamp_us now \<and>
     timestamp_us now < (ordinal now + 1) * 86400000000"
  by (auto simp: valid_datetime_def timestamp_us_def)

lemma first_slot_after_Cons:
  "slot_in_range s \<Longrightarrow>
     first_slot_after now (s # ss) =
       (if timestamp_us now < timestamp_us (slot_on (ordinal now) s)
        then Inr (Some (slot_on (ordinal now) s))
        else first_slot_after now ss)"
  by (cases now) (auto simp: slot_in_range_def slot_on_def replace_time_def split: sum.splits)

lemma first_slot_after_none:
  "list_all slot_in_range ss \<Longrightarrow> first_slot_after now ss = Inr None \<Longrightarrow> s \<in> set ss \<Longrightarrow>
     timestamp_us (slot_on (ordinal now) s) \<le> timestamp_us now"
proof (induction ss)
  case Nil
  then show ?case by simp
next
  case (Cons a ss)
  then show ?case
    by (auto simp: first_slot_after_Cons split: if_splits simp del: first_slot_after.simps)
qed

lemma first_slot_after_no_error:
  "list_all slot_in_range ss \<Longrightarrow> first_slot_after now ss \<noteq> Inl e"
proof (induction ss)
  case Nil
  then show ?case by simp
next
  case (Cons a ss)
  then show ?case
    by (auto simp: first_slot_after_Cons simp del: first_slot_after.simps)
qed

lemma first_slot_after_some:
  assumes "list_all slot_in_range ss"
    and "sorted_wrt (\<lambda>a b. slot_minutes a \<le> slot_minutes b) ss"
    and "first_slot_after now ss = Inr (Some r)"
  shows "\<exists>s\<in>set ss. r = slot_on (ordinal now) s \<and> timestamp_us now < timestamp_us r \<and>
           (\<forall>t\<in>set ss. timestamp_us now < timestamp_us (slot_on (ordinal now) t) \<longrightarrow>
              slot_minutes s \<le> slot_minutes t)"
  using assms
proof (induction ss)
  case Nil
  then show ?case by simp
next
  case (Cons a ss)
  show ?case
  proof (cases "timestamp_us now < timestamp_us (slot_on (ordinal now) a)")
    case True
    with Cons.prems have "r = slot_on (ordinal now) a"
      by (simp add: first_slot_after_Cons del: first_slot_after.simps)
    with True Cons.prems(2) show ?thesis by auto
  next
    case False
    with Cons.prems have "first_slot_after now ss = Inr (Some r)"
      by (simp add: first_slot_after_Cons del: first_slot_after.simps)
    with Cons.IH Cons.prems obtain s where "s \<in> set ss" "r = slot_on (ordinal now) s"
      "timestamp_us now < timestamp_us r"
      "\<forall>t\<in>set ss. timestamp_us now < timestamp_us (slot_on (ordinal now) t) \<longrightarrow>
              slot_minutes s \<le> slot_minutes t"
      by auto
    with False show ?thesis by auto
  qed
qed


lemma tomorrow_first_slot:
  "slot_in_range s \<Longrightarrow>
     (case parse_hour_minute s of
        Inl e \<Rightarrow> Inl e
      | Inr (h, m) \<Rightarrow> replace_time (add_days now 1) h m) = Inr (slot_on (ordinal now + 1) s)"
  by (cases now)
     (auto simp: slot_in_range_def slot_on_def replace_time_def add_days_def split: sum.splits)

lemma slot_on_other_day:
  assumes "slot_in_range s" "valid_datetime now"
    and "timestamp_us now < timestamp_us (slot_on d s)"
  shows "ordinal now \<le> d"
proof (rule ccontr)
  assume "\<not> ordinal now \<le> d"
  then have "d + 1 \<le> ordinal now" by simp
  moreover note slot_minutes_range [OF assms(1)] timestamp_day_bounds [OF assms(2)]
    timestamp_slot_on [OF assms(1), of d] assms(3)
  ultimately show False by auto
qed

lemma next_slot_general:
  assumes ne: "schedule \<noteq> []" and rng: "list_all slot_in_range schedule"
    and v: "valid_datetime now"
    and mono: "\<And>a b. a \<in> set schedule \<Longrightarrow> b \<in> set schedule \<Longrightarrow> a \<le> b \<Longrightarrow>
                 slot_minutes a \<le> slot_minutes b"
  shows "\<exists>r. get_next_publish_time schedule now = Inr r \<and> timestamp_us now < timestamp_us r
       \<and> (\<exists>s\<in>set schedule. r = slot_on (ordinal now) s \<or> r = slot_on (ordinal now + 1) s)
       \<and> (\<forall>s\<in>set schedule. \<forall>d. timestamp_us now < timestamp_us (slot_on d s) \<longrightarrow>
             timestamp_us r \<le> timestamp_us (slot_on d s))"
proof -
  let ?ss = "sort schedule"
  have set_ss: "set ?ss = set schedule" by simp
  have rng_ss: "list_all slot_in_range ?ss"
    using rng by (simp add: list_all_iff)
  have "sorted_wrt (\<le>) ?ss" using sorted_sort [of schedule] by simp
  then have srt: "sorted_wrt (\<lambda>a b. slot_minutes a \<le> slot_minutes b) ?ss"
    by (rule sorted_wrt_mono_rel [rotated]) (use mono in auto)
  have in_rng: "\<And>s. s \<in> set schedule \<Longrightarrow> slot_in_range s"
    using rng by (simp add: list_all_iff)
  note day = timestamp_day_bounds [OF v]
  consider (err) e where "first_slot_after now ?ss = Inl e"
    | (none) "first_slot_after now ?ss = Inr None"
    | (some) r where "first_slot_after now ?ss = Inr (Some r)"
  proof (cases "first_slot_after now ?ss")
    case (Inl e)
    then show ?thesis using err by blast
  next
    case (Inr x)
    then show ?thesis using none some by (cases x) auto
  qed
  then show ?thesis
  proof cases
    case err
    with first_slot_after_no_error [OF rng_ss] show ?thesis by blast
  next
    case none
    from ne have "?ss \<noteq> []" by (metis set_ss set_empty)
    then obtain s0 rest where ss: "?ss = s0 # rest" by (cases ?ss) auto
    then have s0_in: "s0 \<in> set schedule" using set_ss by (metis list.set_intros(1))
    have s0_min: "slot_minutes s0 \<le> slot_minutes t" if "t \<in> set schedule" for t
    proof -
      from that set_ss ss have "t = s0 \<or> t \<in> set rest" by (metis set_ConsD)
      with srt ss show ?thesis by auto
    qed
    let ?r = "slot_on (ordinal now + 1) s0"
    have res: "get_next_publish_time schedule now = Inr ?r"
      using none ss tomorrow_first_slot [OF in_rng [OF s0_in], of now]
      by (simp add: get_next_publish_time_def)
    have after: "timestamp_us now < timestamp_us ?r"
      using day timestamp_slot_on [OF in_rng [OF s0_in], of "ordinal now + 1"]
        slot_minutes_range [OF in_rng [OF s0_in]] by auto
    have least: "timestamp_us ?r \<le> timestamp_us (slot_on d s)"
      if "s \<in> set schedule" and gt: "timestamp_us now < timestamp_us (slot_on d s)" for s d
    proof -
      have "s \<in> set ?ss" using that(1) by simp
      from first_slot_after_none [OF rng_ss none this] gt
      have "d \<noteq> ordinal now" by auto
      with slot_on_other_day [OF in_rng [OF that(1)] v gt] have "ordinal now + 1 \<le> d" by simp
      with s0_min [OF that(1)] timestamp_slot_on [OF in_rng [OF that(1)], of d]
        timestamp_slot_on [OF in_rng [OF s0_in], of "ordinal now + 1"]
      show ?thesis by auto
    qed
    from res after s0_in least show ?thesis by blast
  next
    case some
    from first_slot_after_some [OF rng_ss srt some]
    obtain s where s: "s \<in> set schedule" "r = slot_on (ordinal now) s"
      "timestamp_us now < timestamp_us r"
      and smin: "\<And>t. t \<in> set schedule \<Longrightarrow>
         timestamp_us now < timestamp_us (slot_on (ordinal now) t) \<Longrightarrow>
         slot_minutes s \<le> slot_minutes t"
      by (auto simp: set_ss)
    have res: "get_next_publish_time schedule now = Inr r"
      using some by (simp add: get_next_publish_time_def)
    have least: "timestamp_us r \<le> timestamp_us (slot_on d t)"
      if "t \<in> set schedule" and gt: "timestamp_us now < timestamp_us (slot_on d t)" for t d
    proof (cases "d = ordinal now")
      case True
      with smin [OF that(1)] gt have "slot_minutes s \<le> slot_minutes t" by simp
      with True s(2) timestamp_slot_on [OF in_rng [OF that(1)], of d]
        timestamp_slot_on [OF in_rng [OF s(1)], of "ordinal now"]
      show ?thesis by simp
    next
      case False
      with slot_on_other_day [OF in_rng [OF that(1)] v gt] have "ordinal now + 1 \<le> d" by simp
      with s(2) timestamp_slot_on [OF in_rng [OF that(1)], of d]
        timestamp_slot_on [OF in_rng [OF s(1)], of "ordinal now"]
        slot_minutes_range [OF in_rng [OF s(1)]] slot_minutes_range [OF in_rng [OF that(1)]]
      show ?thesis by auto
    qed
    from res s least show ?thesis by blast
  qed
qed


text \<open>
  C3. The claim: for every non-empty slot list, in any order, the function returns the
  minimum slot occurrence strictly after the clock reading, sorting the slots by time of
  day. The code sorts the slot strings, and the order of the strings is the order of the
  times only when every hour is written with two digits; nothing checks that, and \<^verbatim>\<open>int\<close>
  reads \<open>9\<close> as well as \<open>09\<close>. With the slots \<open>9:00\<close> and \<open>10:00\<close> the string \<open>10:00\<close>
  sorts first, and at 08:00 the function returns 10:00 of the same day, although 09:00 of
  that day is a slot occurrence strictly after the clock reading and earlier than the
  result.
\<close>

theorem get_next_publish_time_not_minimal:
  "get_next_publish_time [''9:00'', ''10:00'']
       \<lparr>ordinal = 739000, hour = 8, minute = 0, second = 0, microsecond = 0\<rparr>
     = Inr \<lparr>ordinal = 739000, hour = 10, minute = 0, second = 0, microsecond = 0\<rparr>
   \<and> sort [''9:00'', ''10:00''] = [''10:00'', ''9:00'']
   \<and> slot_on 739000 ''9:00''
     = \<lparr>ordinal = 739000, hour = 9, minute = 0, second = 0, microsecond = 0\<rparr>
   \<and> timestamp_us \<lparr>ordinal = 739000, hour = 8, minute = 0, second = 0, microsecond = 0\<rparr>
       < timestamp_us (slot_on 739000 ''9:00'')
   \<and> timestamp_us (slot_on 739000 ''9:00'')
       < timestamp_us \<lparr>ordinal = 739000, hour = 10, minute = 0, second = 0, microsecond = 0\<rparr>"
  by code_simp

text \<open>
  For slot lists in the configured form the function does return the minimum. For every
  non-empty slot list, in any order, whose entries have the form \<^verbatim>\<open>HH:MM\<close> (two digits
  each, hour below 24, minute below 60), and every clock reading,
  \<^verbatim>\<open>get_next_publish_time\<close> returns a datetime strictly after the reading; it is an
  occurrence of a configured slot today or tomorrow, and no occurrence of a configured
  slot on any day lies strictly after the reading and before it.
\<close>

theorem get_next_publish_time_minimal:
  assumes "schedule \<noteq> []" and "list_all padded_slot schedule" and "valid_datetime now"
  shows "\<exists>r. get_next_publish_time schedule now = Inr r \<and> timestamp_us now < timestamp_us r
       \<and> (\<exists>s\<in>set schedule. r = slot_on (ordinal now) s \<or> r = slot_on (ordinal now + 1) s)
       \<and> (\<forall>s\<in>set schedule. \<forall>d. timestamp_us now < timestamp_us (slot_on d s) \<longrightarrow>
             timestamp_us r \<le> timestamp_us (slot_on d s))"
proof (rule next_slot_general [OF assms(1) _ assms(3)])
  show "list_all slot_in_range schedule"
    using assms(2) padded_slot_in_range by (auto simp: list_all_iff)
next
  fix a b assume "a \<in> set schedule" "b \<in> set schedule" "a \<le> b"
  with assms(2) show "slot_minutes a \<le> slot_minutes b"
    by (auto simp: list_all_iff intro: padded_slot_order)
qed

theorem get_next_publish_time_minimal_witness:
  "[''20:00'', ''08:00''] \<noteq> [] \<and> list_all padded_slot [''20:00'', ''08:00'']
   \<and> valid_datetime \<lparr>ordinal = 739000, hour = 7, minute = 0, second = 0, microsecond = 0\<rparr>
   \<and> get_next_publish_time [''20:00'', ''08:00'']
        \<lparr>ordinal = 739000, hour = 7, minute = 0, second = 0, microsecond = 0\<rparr>
      = Inr \<lparr>ordinal = 739000, hour = 8, minute = 0, second = 0, microsecond = 0\<rparr>
   \<and> (\<exists>r. get_next_publish_time [''20:00'', ''08:00'']
              \<lparr>ordinal = 739000, hour = 7, minute = 0, second = 0, microsecond = 0\<rparr> = Inr r
          \<and> timestamp_us \<lparr>ordinal = 739000, hour = 7, minute = 0, second = 0, microsecond = 0\<rparr>
              < timestamp_us r
          \<and> (\<forall>s\<in>set [''20:00'', ''08:00'']. \<forall>d.
                timestamp_us \<lparr>ordinal = 739000, hour = 7, minute = 0, second = 0, microsecond = 0\<rparr>
                  < timestamp_us (slot_on d s) \<longrightarrow>
                timestamp_us r \<le> timestamp_us (slot_on d s)))"
proof -
  let ?now = "\<lparr>ordinal = 739000, hour = 7, minute = 0, second = 0, microsecond = 0\<rparr>"
  have ne: "[''20:00'', ''08:00''] \<noteq> []" by simp
  have pad: "list_all padded_slot [''20:00'', ''08:00'']"
    by (simp add: padded_slot_def is_digit_def digit_value_def)
  have val: "valid_datetime ?now" by (simp add: valid_datetime_def)
  have run: "get_next_publish_time [''20:00'', ''08:00''] ?now
      = Inr \<lparr>ordinal = 739000, hour = 8, minute = 0, second = 0, microsecond = 0\<rparr>"
    by code_simp
  from get_next_publish_time_minimal [OF ne pad val]
  have "\<exists>r. get_next_publish_time [''20:00'', ''08:00''] ?now = Inr r
          \<and> timestamp_us ?now < timestamp_us r
          \<and> (\<forall>s\<in>set [''20:00'', ''08:00'']. \<forall>d.
                timestamp_us ?now < timestamp_us (slot_on d s) \<longrightarrow>
                timestamp_us r \<le> timestamp_us (slot_on d s))"
    by blast
  with ne pad val run show ?thesis by blast
qed

subsection \<open>The publish decision\<close>















subsection \<open>Consumption\<close>

lemma consume_segment_effect:
  "assigned w story_id = Some seg \<Longrightarrow>
     assigned (consume_segment story_id w) story_id = None \<and>
     seg \<notin> fst ` set (segments_folder (consume_segment story_id w)) \<and>
     story_folders (consume_segment story_id w) = story_folders w"
  by (auto simp: consume_segment_def unlink_def)

lemma rmtree_effect:
  "folder \<in> set (story_folders w) \<Longrightarrow>
     fst (rmtree folder w) = None \<and>
     folder \<notin> set (story_folders (snd (rmtree folder w))) \<and>
     assigned (snd (rmtree folder w)) = assigned w \<and>
     segments_folder (snd (rmtree folder w)) = segments_folder w"
  by (simp add: rmtree_def)

text \<open>
  C4. When production has succeeded and the publish decision is made, the loop consumes
  the story's segment and removes the story's folder exactly when the upload returns a
  video id: then the assignment is gone, the segment file is gone and the folder is gone;
  when the upload returns no id, the world is left as it was, the segment still assigned
  and on disk, the folder untouched. The same holds when there is no output file to
  publish.
\<close>

theorem publishing_phase_consumes_iff_published:
  assumes "publish_time_for_api schedule tolerance target current now_again = Inr publish_at"
    and "video_id = upload_to_youtube authenticated api isoformat category yt_title yt_desc
           [''reddit'', ''stories'', ''askreddit'', ''storytime'', subreddit] publish_at"
  shows "(truthy video_id \<longrightarrow>
            publishing_phase schedule tolerance authenticated api isoformat category yt_title
                yt_desc subreddit target current now_again True story_id w
              = rmtree (story_folder_of story_id) (consume_segment story_id w)) \<and>
         (truthy video_id \<and> assigned w story_id = Some seg \<and>
          story_folder_of story_id \<in> set (story_folders w) \<longrightarrow>
            assigned (snd (publishing_phase schedule tolerance authenticated api isoformat
                category yt_title yt_desc subreddit target current now_again True story_id w))
              story_id = None \<and>
            seg \<notin> fst ` set (segments_folder (snd (publishing_phase schedule tolerance
                authenticated api isoformat category yt_title yt_desc subreddit target current
                now_again True story_id w))) \<and>
            story_folder_of story_id \<notin> set (story_folders (snd (publishing_phase schedule
                tolerance authenticated api isoformat category yt_title yt_desc subreddit target
                current now_again True story_id w)))) \<and>
         (\<not> truthy video_id \<longrightarrow>
            publishing_phase schedule tolerance authenticated api isoformat category yt_title
                yt_desc subreddit target current now_again True story_id w = (None, w)) \<and>
         publishing_phase schedule tolerance authenticated api isoformat category yt_title
             yt_desc subreddit target current now_again False story_id w = (None, w)"
proof (intro conjI impI)
  assume t: "truthy video_id"
  with assms show run: "publishing_phase schedule tolerance authenticated api isoformat
      category yt_title yt_desc subreddit target current now_again True story_id w
        = rmtree (story_folder_of story_id) (consume_segment story_id w)"
    by (simp add: publishing_phase_def)
next
  assume h: "truthy video_id \<and> assigned w story_id = Some seg \<and>
      story_folder_of story_id \<in> set (story_folders w)"
  let ?c = "consume_segment story_id w"
  from h assms have run: "publishing_phase schedule tolerance authenticated api isoformat
      category yt_title yt_desc subreddit target current now_again True story_id w
        = rmtree (story_folder_of story_id) ?c"
    by (simp add: publishing_phase_def)
  from h consume_segment_effect [of w story_id seg]
  have c: "assigned ?c story_id = None" "seg \<notin> fst ` set (segments_folder ?c)"
    "story_folder_of story_id \<in> set (story_folders ?c)"
    by simp_all
  from rmtree_effect [OF c(3)] c(1,2)
  show "assigned (snd (publishing_phase schedule tolerance authenticated api isoformat
      category yt_title yt_desc subreddit target current now_again True story_id w)) story_id = None"
    and "seg \<notin> fst ` set (segments_folder (snd (publishing_phase schedule tolerance
      authenticated api isoformat category yt_title yt_desc subreddit target current
      now_again True story_id w)))"
    and "story_folder_of story_id \<notin> set (story_folders (snd (publishing_phase schedule
      tolerance authenticated api isoformat category yt_title yt_desc subreddit target
      current now_again True story_id w)))"
    unfolding run by simp_all
next
  assume "\<not> truthy video_id"
  with assms show "publishing_phase schedule tolerance authenticated api isoformat category
      yt_title yt_desc subreddit target current now_again True story_id w = (None, w)"
    by (simp add: publishing_phase_def)
next
  show "publishing_phase schedule tolerance authenticated api isoformat category yt_title
      yt_desc subreddit target current now_again False story_id w = (None, w)"
    by (simp add: publishing_phase_def)
qed

theorem publishing_phase_consumes_iff_published_witness:
  "assigned (snd (publishing_phase [''08:00'', ''20:00''] 30 True (\<lambda>b. Some ''vid123'') (\<lambda>d. ''iso'')
       ''24'' ''title'' ''desc'' ''tifu''
       \<lparr>ordinal = 739000, hour = 8, minute = 0, second = 0, microsecond = 0\<rparr>
       \<lparr>ordinal = 739000, hour = 7, minute = 50, second = 0, microsecond = 0\<rparr>
       \<lparr>ordinal = 739000, hour = 7, minute = 50, second = 0, microsecond = 9\<rparr>
       True ''abc''
       \<lparr>assigned = [''abc'' \<mapsto> ''a.mp4''],
        segments_folder = [(''a.mp4'', 200000), (''b.mp4'', 300000)],
        story_folders = [''story_abc'']\<rparr>)) ''abc'' = None
   \<and> ''a.mp4'' \<notin> fst ` set (segments_folder (snd (publishing_phase [''08:00'', ''20:00''] 30 True
       (\<lambda>b. Some ''vid123'') (\<lambda>d. ''iso'') ''24'' ''title'' ''desc'' ''tifu''
       \<lparr>ordinal = 739000, hour = 8, minute = 0, second = 0, microsecond = 0\<rparr>
       \<lparr>ordinal = 739000, hour = 7, minute = 50, second = 0, microsecond = 0\<rparr>
       \<lparr>ordinal = 739000, hour = 7, minute = 50, second = 0, microsecond = 9\<rparr>
       True ''abc''
       \<lparr>assigned = [''abc'' \<mapsto> ''a.mp4''],
        segments_folder = [(''a.mp4'', 200000), (''b.mp4'', 300000)],
        story_folders = [''story_abc'']\<rparr>)))
   \<and> story_folder_of ''abc'' \<notin> set (story_folders (snd (publishing_phase [''08:00'', ''20:00''] 30 True
       (\<lambda>b. Some ''vid123'') (\<lambda>d. ''iso'') ''24'' ''title'' ''desc'' ''tifu''
       \<lparr>ordinal = 739000, hour = 8, minute = 0, second = 0, microsecond = 0\<rparr>
       \<lparr>ordinal = 739000, hour = 7, minute = 50, second = 0, microsecond = 0\<rparr>
       \<lparr>ordinal = 739000, hour = 7, minute = 50, second = 0, microsecond = 9\<rparr>
       True ''abc''
       \<lparr>assigned = [''abc'' \<mapsto> ''a.mp4''],
        segments_folder = [(''a.mp4'', 200000), (''b.mp4'', 300000)],
        story_folders = [''story_abc'']\<rparr>)))
   \<and> publishing_phase [''08:00'', ''20:00''] 30 True (\<lambda>b. None) (\<lambda>d. ''iso'')
       ''24'' ''title'' ''desc'' ''tifu''
       \<lparr>ordinal = 739000, hour = 8, minute = 0, second = 0, microsecond = 0\<rparr>
       \<lparr>ordinal = 739000, hour = 7, minute = 50, second = 0, microsecond = 0\<rparr>
       \<lparr>ordinal = 739000, hour = 7, minute = 50, second = 0, microsecond = 9\<rparr>
       True ''abc''
       \<lparr>assigned = [''abc'' \<mapsto> ''a.mp4''],
        segments_folder = [(''a.mp4'', 200000), (''b.mp4'', 300000)],
        story_folders = [''story_abc'']\<rparr>
     = (None, \<lparr>assigned = [''abc'' \<mapsto> ''a.mp4''],
               segments_folder = [(''a.mp4'', 200000), (''b.mp4'', 300000)],
               story_folders = [''story_abc'']\<rparr>)"
proof -
  let ?sched = "[''08:00'', ''20:00'']"
  let ?target = "\<lparr>ordinal = 739000, hour = 8, minute = 0, second = 0, microsecond = 0\<rparr>"
  let ?cur = "\<lparr>ordinal = 739000, hour = 7, minute = 50, second = 0, microsecond = 0\<rparr>"
  let ?again = "\<lparr>ordinal = 739000, hour = 7, minute = 50, second = 0, microsecond = 9\<rparr>"
  let ?w = "\<lparr>assigned = [''abc'' \<mapsto> ''a.mp4''],
        segments_folder = [(''a.mp4'', 200000::nat), (''b.mp4'', 300000)],
        story_folders = [''story_abc'']\<rparr>"
  let ?tags = "[''reddit'', ''stories'', ''askreddit'', ''storytime'', ''tifu'']"
  have dec: "publish_time_for_api ?sched 30 ?target ?cur ?again = Inr (Some ?target)"
    by (simp add: publish_time_for_api_def timestamp_us_def)
  have ok: "Some ''vid123'' = upload_to_youtube True (\<lambda>b. Some ''vid123'') (\<lambda>d. ''iso'') ''24''
      ''title'' ''desc'' ?tags (Some ?target)"
    by (simp add: upload_to_youtube_def)
  have bad: "None = upload_to_youtube True (\<lambda>b. None) (\<lambda>d. ''iso'') ''24''
      ''title'' ''desc'' ?tags (Some ?target)"
    by (simp add: upload_to_youtube_def)
  have pre: "truthy (Some ''vid123'')" "\<not> truthy None" "assigned ?w ''abc'' = Some ''a.mp4''"
    "story_folder_of ''abc'' \<in> set (story_folders ?w)"
    by (simp_all add: truthy_def story_folder_of_def)
  from publishing_phase_consumes_iff_published [OF dec ok, of "''abc''" ?w "''a.mp4''"] pre
    publishing_phase_consumes_iff_published [OF dec bad, of "''abc''" ?w "''a.mp4''"]
  show ?thesis by blast
qed

text \<open>
  C10. The request body carries \<^verbatim>\<open>privacyStatus\<close> "private" and a \<^verbatim>\<open>publishAt\<close>, the
  rendering of the scheduled time, when a scheduled time is supplied, and "public" and no
  \<^verbatim>\<open>publishAt\<close> when it is \<^verbatim>\<open>None\<close>; with credentials, this body is what the API receives;
  and the publishing phase supplies the publish decision as the scheduled time.
\<close>

theorem upload_body_privacy:
  "privacyStatus (upload_body isoformat category ttl desc tgs (Some t)) = ''private'' \<and>
   publishAt (upload_body isoformat category ttl desc tgs (Some t)) = Some (isoformat t) \<and>
   privacyStatus (upload_body isoformat category ttl desc tgs None) = ''public'' \<and>
   publishAt (upload_body isoformat category ttl desc tgs None) = None \<and>
   upload_to_youtube True api isoformat category ttl desc tgs publish_at
     = api (upload_body isoformat category ttl desc tgs publish_at) \<and>
   publishing_phase schedule tolerance True api isoformat category ttl desc subreddit
       target current now_again True story_id w
     = (case publish_time_for_api schedule tolerance target current now_again of
          Inl e \<Rightarrow> (Some e, w)
        | Inr decision \<Rightarrow>
            if truthy (api (upload_body isoformat category ttl desc
                 [''reddit'', ''stories'', ''askreddit'', ''storytime'', subreddit] decision))
            then rmtree (story_folder_of story_id) (consume_segment story_id w)
            else (None, w))"
  by (simp add: upload_body_def upload_to_youtube_def publishing_phase_def split: sum.splits)

subsection \<open>The segmenter and the log\<close>

text \<open>
  C5. The claim: a raw asset whose duration minus both trims is shorter than one segment
  is rejected outright, no segment is made and the raw file is deleted. The code makes no
  segment, but its \<^verbatim>\<open>continue\<close> also skips the cleanup at the end of the loop body: the raw
  file stays in the folder and its id is not logged, so every later run meets it again.
  With the shipped configuration and a raw video of 150 seconds (90 after trimming), the
  library is left exactly as it was. The sibling path deletes such a file: with trimming
  switched off, a video of 90 seconds gives no segment, is unlinked and is logged.
\<close>

theorem too_short_video_is_left_in_place:
  "process_new_videos_into_segments
      \<lparr>enable_video_trimming = True, trim_start_seconds = 30, trim_end_seconds = 30,
       segment_duration_seconds = 120\<rparr>
      \<lparr>enable_quality_validation = True, validation_frame_samples = 5,
       min_brightness = 30, max_brightness = 220, min_motion_score = 1\<rparr>
      (\<lambda>name. \<lparr>probe_duration = 150, trimmed_written = True, probe_trimmed = 90,
                segment_written = (\<lambda>i. True),
                segment_clip = (\<lambda>i. \<lparr>opened = True, frame_count = 3600,
                   read_frame = (\<lambda>j. if j mod 2 = 0 then Gray [100, 100] else Gray [150, 150])\<rparr>)\<rparr>)
      \<lparr>raw_folder = [''short.mp4''], segments_dir = [], processed_log = None\<rparr>
    = \<lparr>raw_folder = [''short.mp4''], segments_dir = [], processed_log = None\<rparr>
   \<and> process_new_videos_into_segments
      \<lparr>enable_video_trimming = False, trim_start_seconds = 30, trim_end_seconds = 30,
       segment_duration_seconds = 120\<rparr>
      \<lparr>enable_quality_validation = True, validation_frame_samples = 5,
       min_brightness = 30, max_brightness = 220, min_motion_score = 1\<rparr>
      (\<lambda>name. \<lparr>probe_duration = 90, trimmed_written = False, probe_trimmed = 90,
                segment_written = (\<lambda>i. True),
                segment_clip = (\<lambda>i. \<lparr>opened = True, frame_count = 3600,
                   read_frame = (\<lambda>j. if j mod 2 = 0 then Gray [100, 100] else Gray [150, 150])\<rparr>)\<rparr>)
      \<lparr>raw_folder = [''short.mp4''], segments_dir = [], processed_log = None\<rparr>
    = \<lparr>raw_folder = [], segments_dir = [], processed_log = Some (''short'' @ [CHR 0x0A])\<rparr>"
  by (simp add: process_new_videos_into_segments_def load_processed_ids_def has_mp4_suffix_def
      ends_with_def stem_def process_video_def append_line_def)

text \<open>
  C6. The claim: every id ever persisted to the processed-video log is still in the log
  after any later persistence by the downloader or the segmenter, one id per line. The
  downloader writes the ids joined by newlines, with no newline after the last one; the
  segmenter then appends its id and a newline to that text. After a download of \<open>vidA\<close>
  the log reads \<open>vidA\<close>; the segmenter, processing the raw video \<open>clipB.mp4\<close> that is not
  in the log, leaves it reading \<open>vidAclipB\<close> on one line: neither \<open>vidA\<close> nor \<open>clipB\<close> is
  an id of the log any more.
\<close>

theorem log_append_merges_ids:
  "download_new_source_videos [''vidA'']
      \<lparr>raw_folder = [''clipB.mp4''], segments_dir = [], processed_log = None\<rparr>
    = \<lparr>raw_folder = [''clipB.mp4'', ''vidA.mp4''], segments_dir = [],
       processed_log = Some ''vidA''\<rparr>
   \<and> load_processed_ids (Some ''vidA'') = [''vidA'']
   \<and> process_new_videos_into_segments
      \<lparr>enable_video_trimming = True, trim_start_seconds = 30, trim_end_seconds = 30,
       segment_duration_seconds = 120\<rparr>
      \<lparr>enable_quality_validation = True, validation_frame_samples = 5,
       min_brightness = 30, max_brightness = 220, min_motion_score = 1\<rparr>
      (\<lambda>name. \<lparr>probe_duration = 300, trimmed_written = True, probe_trimmed = 240,
                segment_written = (\<lambda>i. True),
                segment_clip = (\<lambda>i. \<lparr>opened = True, frame_count = 3600,
                   read_frame = (\<lambda>j. if j mod 2 = 0 then Gray [100, 100] else Gray [150, 150])\<rparr>)\<rparr>)
      \<lparr>raw_folder = [''clipB.mp4'', ''vidA.mp4''], segments_dir = [],
       processed_log = Some ''vidA''\<rparr>
    = \<lparr>raw_folder = [''vidA.mp4''], segments_dir = [''clipB_seg1.mp4'', ''clipB_seg2.mp4''],
       processed_log = Some (''vidAclipB'' @ [CHR 0x0A])\<rparr>
   \<and> load_processed_ids (Some (''vidAclipB'' @ [CHR 0x0A])) = [''vidAclipB'']"
  by code_simp

subsection \<open>The quality check\<close>

lemma sample_frames_skip:
  "sample_frames (filter (\<lambda>e. e \<noteq> No_frame) evs) st = sample_frames evs st"
  by (induction evs st rule: sample_frames.induct) (auto split: option.splits)

lemma sample_frames_append:
  "sample_frames (xs @ ys) st =
     (case sample_frames xs st of Inl msg \<Rightarrow> Inl msg | Inr st' \<Rightarrow> sample_frames ys st')"
  by (induction xs st rule: sample_frames.induct) (auto split: option.splits)

lemma sample_frames_all_failed:
  "list_all (\<lambda>e. e = No_frame) evs \<Longrightarrow> sample_frames evs st = Inr st"
  by (induction evs) auto

text \<open>
  C7, as stated, fails: a sampled frame that cannot be read is passed over by
  \<^verbatim>\<open>if not ret: continue\<close>. With five samples of which the third cannot be read and the
  other four are fine, the segment is accepted.
\<close>

theorem unreadable_frame_is_accepted:
  "frame_indices 5 5 = Inr [0, 1, 2, 3, 4]
   \<and> read_frame \<lparr>opened = True, frame_count = 5,
        read_frame = (\<lambda>j. if j = 2 then No_frame
                           else if j mod 2 = 0 then Gray [100, 100] else Gray [150, 150])\<rparr> 2
      = No_frame
   \<and> is_segment_high_quality
        \<lparr>enable_quality_validation = True, validation_frame_samples = 5,
         min_brightness = 30, max_brightness = 220, min_motion_score = 1\<rparr>
        \<lparr>opened = True, frame_count = 5,
         read_frame = (\<lambda>j. if j = 2 then No_frame
                            else if j mod 2 = 0 then Gray [100, 100] else Gray [150, 150])\<rparr>
      = (True, Quality_OK)"
  by code_simp

text \<open>
  C7, amended. When the check runs (validation on, the capture open, enough frames), an
  exception raised while the frames are sampled is a hard rejection whose reason is the
  text of the exception. A sampled frame that cannot be read is skipped: the verdict is
  the one that the frames that were read give, and when no sampled frame could be read
  the segment is rejected for its brightness, out of range with no value.
\<close>

theorem failed_frame_reads:
  assumes "enable_quality_validation cfg" and "opened c"
    and "validation_frame_samples cfg \<le> frame_count c"
    and "frame_indices (frame_count c) (validation_frame_samples cfg) = Inr idxs"
  shows "is_segment_high_quality cfg c =
           (case sample_frames (filter (\<lambda>e. e \<noteq> No_frame) (map (read_frame c) idxs))
                   \<lparr>brightness_values = [], motion_scores = [], prev_gray = None\<rparr> of
              Inl msg \<Rightarrow> (False, Error_text msg)
            | Inr st \<Rightarrow> quality_verdict cfg st)
       \<and> (list_all (\<lambda>i. read_frame c i = No_frame) idxs \<longrightarrow>
           is_segment_high_quality cfg c = (False, Brightness_out_of_range None))
       \<and> (idxs = before @ i # rest \<and> read_frame c i = Raises msg \<and>
          sample_frames (map (read_frame c) before)
            \<lparr>brightness_values = [], motion_scores = [], prev_gray = None\<rparr> = Inr st \<longrightarrow>
           is_segment_high_quality cfg c = (False, Error_text msg))"
proof -
  let ?init = "\<lparr>brightness_values = [], motion_scores = [], prev_gray = None\<rparr>"
  have run: "is_segment_high_quality cfg c =
      (case sample_frames (map (read_frame c) idxs) ?init of
         Inl msg \<Rightarrow> (False, Error_text msg) | Inr st \<Rightarrow> quality_verdict cfg st)"
    using assms by (simp add: is_segment_high_quality_def)
  have skipped: "is_segment_high_quality cfg c =
           (case sample_frames (filter (\<lambda>e. e \<noteq> No_frame) (map (read_frame c) idxs)) ?init of
              Inl msg \<Rightarrow> (False, Error_text msg)
            | Inr st \<Rightarrow> quality_verdict cfg st)"
    by (simp only: run sample_frames_skip)
  have none_read: "list_all (\<lambda>i. read_frame c i = No_frame) idxs \<longrightarrow>
           is_segment_high_quality cfg c = (False, Brightness_out_of_range None)"
  proof
    assume "list_all (\<lambda>i. read_frame c i = No_frame) idxs"
    then have "list_all (\<lambda>e. e = No_frame) (map (read_frame c) idxs)"
      by (simp add: list_all_iff)
    from sample_frames_all_failed [OF this, of ?init] run
    show "is_segment_high_quality cfg c = (False, Brightness_out_of_range None)"
      by (simp add: quality_verdict_def np_mean_def)
  qed
  have raised: "idxs = before @ i # rest \<and> read_frame c i = Raises msg \<and>
         sample_frames (map (read_frame c) before) ?init = Inr st \<longrightarrow>
           is_segment_high_quality cfg c = (False, Error_text msg)"
    using run by (auto simp: sample_frames_append)
  from skipped none_read raised show ?thesis by blast
qed

theorem failed_frame_reads_witness:
  "is_segment_high_quality
      \<lparr>enable_quality_validation = True, validation_frame_samples = 5,
       min_brightness = 30, max_brightness = 220, min_motion_score = 1\<rparr>
      \<lparr>opened = True, frame_count = 5, read_frame = (\<lambda>j. No_frame)\<rparr>
     = (False, Brightness_out_of_range None)
   \<and> is_segment_high_quality
      \<lparr>enable_quality_validation = True, validation_frame_samples = 5,
       min_brightness = 30, max_brightness = 220, min_motion_score = 1\<rparr>
      \<lparr>opened = True, frame_count = 5,
       read_frame = (\<lambda>j. if j = 2 then Raises ''boom''
                          else if j mod 2 = 0 then Gray [100, 100] else Gray [150, 150])\<rparr>
     = (False, Error_text ''boom'')"
proof -
  let ?cfg = "\<lparr>enable_quality_validation = True, validation_frame_samples = 5,
       min_brightness = 30, max_brightness = 220, min_motion_score = 1\<rparr>"
  let ?a = "\<lparr>opened = True, frame_count = 5, read_frame = (\<lambda>j. No_frame)\<rparr>"
  let ?b = "\<lparr>opened = True, frame_count = 5,
       read_frame = (\<lambda>j. if j = 2 then Raises ''boom''
                          else if j mod 2 = 0 then Gray [100, 100] else Gray [150, 150])\<rparr>"
  let ?st = "\<lparr>brightness_values = [100, 150], motion_scores = [100], prev_gray = Some [150, 150]\<rparr>"
  have idx: "frame_indices 5 5 = Inr [0, 1, 2, 3, 4]" by code_simp
  have ia: "frame_indices (frame_count ?a) (validation_frame_samples ?cfg) = Inr [0, 1, 2, 3, 4]"
    using idx by simp
  have ib: "frame_indices (frame_count ?b) (validation_frame_samples ?cfg) = Inr [0, 1, 2, 3, 4]"
    using idx by simp
  have pre: "sample_frames (map (read_frame ?b) [0, 1])
       \<lparr>brightness_values = [], motion_scores = [], prev_gray = None\<rparr> = Inr ?st"
    by (simp add: gray_mean_def motion_percent_def)
  have a: "is_segment_high_quality ?cfg ?a = (False, Brightness_out_of_range None)"
    using failed_frame_reads [of ?cfg ?a "[0, 1, 2, 3, 4]", OF _ _ _ ia, THEN conjunct2,
        THEN conjunct1]
    by simp
  have b: "is_segment_high_quality ?cfg ?b = (False, Error_text ''boom'')"
    using failed_frame_reads [of ?cfg ?b "[0, 1, 2, 3, 4]" "[0, 1]" 2 "[3, 4]" "''boom''" ?st,
        OF _ _ _ ib, THEN conjunct2, THEN conjunct2] pre
    by simp
  from a b show ?thesis by simp
qed

end
